theory Spec2Isabelle
  imports Main
begin

section \<open>The object heap\<close>

text \<open>
  \<^verbatim>\<open>osinfo_os.c\<close> works on GObject instances through pointers: it tests their run-time
  type (\<^verbatim>\<open>OSINFO_IS_OS\<close>, \<^verbatim>\<open>OSINFO_IS_PLATFORM\<close>, ...), allocates a new device link
  in \<^verbatim>\<open>osinfo_os_add_device\<close>, stores pointers to device links in the lists of the
  operating system, and hands the same pointers back to its callers. The model keeps
  an explicit heap: a pointer is a natural number, \<open>0\<close> is \<^verbatim>\<open>NULL\<close>, and the object
  at address \<open>p > 0\<close> is the \<open>p\<close>-th element of the heap. Reference identity
  is equality of addresses.
\<close>

type_synonym gpointer = nat

abbreviation NULL :: gpointer where
  "NULL \<equiv> 0"

text \<open>
  \<^verbatim>\<open>struct _OsinfoOsPrivate\<close>: the hash table \<^verbatim>\<open>platforms\<close> from platform id to a
  \<^verbatim>\<open>GList\<close> of device links, and the \<^verbatim>\<open>GList\<close> \<^verbatim>\<open>deviceLinks\<close>. A \<^verbatim>\<open>GList\<close> is
  the list of its data pointers; the \<^verbatim>\<open>NULL\<close> list is \<open>[]\<close>.
\<close>

record OsinfoOsPrivate =
  platforms :: "string \<Rightarrow> gpointer list option"
  deviceLinks :: "gpointer list"

text \<open>
  The instances the file meets. An operating system, a platform and a device carry
  their entity id; a device link carries its target device and its optional driver
  name (\<^verbatim>\<open>struct _OsinfoOsDeviceLink\<close>); \<open>GObject\<close> stands for an instance of any
  other type.
\<close>

datatype gobject =
    OsinfoOs string OsinfoOsPrivate
  | OsinfoPlatform string
  | OsinfoDevice string
  | OsinfoDeviceLink gpointer "string option"
  | OsinfoFilter
  | GObject

type_synonym heap = "gobject list"

definition deref :: "heap \<Rightarrow> gpointer \<Rightarrow> gobject option" where
  "deref h p = (if p = NULL \<or> length h < p then None else Some (h ! (p - 1)))"

text \<open>
  \<^verbatim>\<open>g_object_new\<close> of GLib: the new instance lives at an address that no object
  of the heap has.
\<close>

definition g_object_new :: "heap \<Rightarrow> gobject \<Rightarrow> heap \<times> gpointer" where
  "g_object_new h obj = (h @ [obj], Suc (length h))"

text \<open>A write through a pointer to a live object.\<close>

definition store :: "heap \<Rightarrow> gpointer \<Rightarrow> gobject \<Rightarrow> heap" where
  "store h p obj = (if p = NULL \<or> length h < p then h else h[p - 1 := obj])"

subsection \<open>Run-time type checks\<close>

text \<open>
  \<^verbatim>\<open>OSINFO_IS_OS(p)\<close> and its siblings are GObject's instance type checks: false for
  \<^verbatim>\<open>NULL\<close> and for an instance of another type.
\<close>

fun is_os :: "gobject \<Rightarrow> bool" where
  "is_os (OsinfoOs ident priv) = True"
| "is_os obj = False"

fun is_platform :: "gobject \<Rightarrow> bool" where
  "is_platform (OsinfoPlatform ident) = True"
| "is_platform obj = False"

fun is_device :: "gobject \<Rightarrow> bool" where
  "is_device (OsinfoDevice ident) = True"
| "is_device obj = False"

fun is_filter :: "gobject \<Rightarrow> bool" where
  "is_filter OsinfoFilter = True"
| "is_filter obj = False"

definition OSINFO_IS_OS :: "heap \<Rightarrow> gpointer \<Rightarrow> bool" where
  "OSINFO_IS_OS h p = (case deref h p of None \<Rightarrow> False | Some obj \<Rightarrow> is_os obj)"

definition OSINFO_IS_PLATFORM :: "heap \<Rightarrow> gpointer \<Rightarrow> bool" where
  "OSINFO_IS_PLATFORM h p = (case deref h p of None \<Rightarrow> False | Some obj \<Rightarrow> is_platform obj)"

definition OSINFO_IS_DEVICE :: "heap \<Rightarrow> gpointer \<Rightarrow> bool" where
  "OSINFO_IS_DEVICE h p = (case deref h p of None \<Rightarrow> False | Some obj \<Rightarrow> is_device obj)"

definition OSINFO_IS_FILTER :: "heap \<Rightarrow> gpointer \<Rightarrow> bool" where
  "OSINFO_IS_FILTER h p = (case deref h p of None \<Rightarrow> False | Some obj \<Rightarrow> is_filter obj)"

subsection \<open>Collaborators of the file\<close>

text \<open>
  Modelled from the spec: \<^verbatim>\<open>osinfo_entity_get_id\<close> is not part of the file. The spec
  gives every entity an opaque identity, and a platform is used only through its
  identifier string, the key of the platform mapping.
\<close>

fun entity_id :: "gobject \<Rightarrow> string" where
  "entity_id (OsinfoOs ident priv) = ident"
| "entity_id (OsinfoPlatform ident) = ident"
| "entity_id (OsinfoDevice ident) = ident"
| "entity_id obj = []"

definition osinfo_entity_get_id :: "heap \<Rightarrow> gpointer \<Rightarrow> string" where
  "osinfo_entity_get_id h e = (case deref h e of None \<Rightarrow> [] | Some obj \<Rightarrow> entity_id obj)"

text \<open>
  Modelled from the spec: \<^verbatim>\<open>osinfo_devicelink_new\<close> is not part of the file. The spec:
  a new association wrapping the device, its driver left unset.
\<close>

definition osinfo_devicelink_new :: "heap \<Rightarrow> gpointer \<Rightarrow> heap \<times> gpointer" where
  "osinfo_devicelink_new h dev = g_object_new h (OsinfoDeviceLink dev None)"

text \<open>
  Modelled from the spec: \<^verbatim>\<open>osinfo_devicelink_get_target\<close> is not part of the file.
  The spec: the target of an association is the device being linked. On a pointer
  that is no device link the result is \<^verbatim>\<open>NULL\<close>.
\<close>

fun link_target :: "gobject \<Rightarrow> gpointer" where
  "link_target (OsinfoDeviceLink target driver) = target"
| "link_target obj = NULL"

definition osinfo_devicelink_get_target :: "heap \<Rightarrow> gpointer \<Rightarrow> gpointer" where
  "osinfo_devicelink_get_target h link =
     (case deref h link of None \<Rightarrow> NULL | Some obj \<Rightarrow> link_target obj)"

text \<open>
  Modelled from the spec: \<^verbatim>\<open>osinfo_devicelist_new\<close>, \<^verbatim>\<open>osinfo_devicelinklist_new\<close>
  and \<^verbatim>\<open>osinfo_list_add\<close> are not part of the file. The spec: the generic list
  container that holds a result set, newly constructed by each query and owned by the
  caller. A result list is the list of its elements, the new list is empty, and an
  element is added at the end.
\<close>

definition osinfo_list_new :: "gpointer list" where
  "osinfo_list_new = []"

definition osinfo_list_add :: "gpointer list \<Rightarrow> gpointer \<Rightarrow> gpointer list" where
  "osinfo_list_add newList entity = newList @ [entity]"

text \<open>
  \<^verbatim>\<open>osinfo_filter_matches\<close> is not part of the file either: the spec has it as the
  caller's predicate \<open>Matches(entity) \<rightarrow> bool\<close>, pure with respect to the index.
  Every query takes it as its first parameter \<open>fm\<close>: \<open>fm filter entity\<close> tells
  whether the filter at the first address matches the entity at the second.
\<close>

type_synonym filter_matches = "gpointer \<Rightarrow> gpointer \<Rightarrow> bool"

subsection \<open>GLib lists and hash tables\<close>

definition g_list_append :: "gpointer list \<Rightarrow> gpointer \<Rightarrow> gpointer list" where
  "g_list_append list data = list @ [data]"

text \<open>
  \<^verbatim>\<open>g_hash_table_lookup\<close> returns the value of the key, \<^verbatim>\<open>NULL\<close> (the empty list)
  when the key is absent.
\<close>

definition g_hash_table_lookup ::
  "(string \<Rightarrow> gpointer list option) \<Rightarrow> string \<Rightarrow> gpointer list" where
  "g_hash_table_lookup table key = (case table key of None \<Rightarrow> [] | Some val \<Rightarrow> val)"

definition g_hash_table_lookup_extended ::
  "(string \<Rightarrow> gpointer list option) \<Rightarrow> string \<Rightarrow> gpointer list option" where
  "g_hash_table_lookup_extended table key = table key"

definition g_hash_table_steal ::
  "(string \<Rightarrow> gpointer list option) \<Rightarrow> string \<Rightarrow> (string \<Rightarrow> gpointer list option)" where
  "g_hash_table_steal table key = table(key := None)"

definition g_hash_table_insert ::
  "(string \<Rightarrow> gpointer list option) \<Rightarrow> string \<Rightarrow> gpointer list
    \<Rightarrow> (string \<Rightarrow> gpointer list option)" where
  "g_hash_table_insert table key val = table(key \<mapsto> val)"

section \<open>The operating system entity\<close>

text \<open>\<^verbatim>\<open>osinfo_os_init\<close>: no device links, an empty hash table.\<close>

definition osinfo_os_init :: OsinfoOsPrivate where
  "osinfo_os_init = \<lparr>platforms = Map.empty, deviceLinks = []\<rparr>"

definition osinfo_os_new :: "heap \<Rightarrow> string \<Rightarrow> heap \<times> gpointer" where
  "osinfo_os_new h ident = g_object_new h (OsinfoOs ident osinfo_os_init)"

text \<open>
  \<open>os->priv\<close>. Every function reads it only behind its \<^verbatim>\<open>OSINFO_IS_OS\<close> guard;
  the other branch is never taken.
\<close>

fun priv_of :: "gobject \<Rightarrow> OsinfoOsPrivate" where
  "priv_of (OsinfoOs ident priv) = priv"
| "priv_of obj = osinfo_os_init"

definition os_priv :: "heap \<Rightarrow> gpointer \<Rightarrow> OsinfoOsPrivate" where
  "os_priv h os = (case deref h os of None \<Rightarrow> osinfo_os_init | Some obj \<Rightarrow> priv_of obj)"

fun with_priv :: "gobject \<Rightarrow> OsinfoOsPrivate \<Rightarrow> gobject" where
  "with_priv (OsinfoOs ident old) priv = OsinfoOs ident priv"
| "with_priv obj priv = obj"

definition set_os_priv :: "heap \<Rightarrow> gpointer \<Rightarrow> OsinfoOsPrivate \<Rightarrow> heap" where
  "set_os_priv h os priv =
     (case deref h os of None \<Rightarrow> h | Some obj \<Rightarrow> store h os (with_priv obj priv))"

subsection \<open>The source list of a query\<close>

text \<open>
  The three queries open with the same lines: the list of the platform's id in the
  hash table when a platform is given, the list \<^verbatim>\<open>deviceLinks\<close> otherwise.
\<close>

definition selected_links :: "heap \<Rightarrow> gpointer \<Rightarrow> gpointer \<Rightarrow> gpointer list" where
  "selected_links h os platform =
     (if platform \<noteq> NULL
      then g_hash_table_lookup (platforms (os_priv h os)) (osinfo_entity_get_id h platform)
      else deviceLinks (os_priv h os))"

subsection \<open>\<^verbatim>\<open>osinfo_os_get_preferred_device_link\<close>\<close>

text \<open>
  The \<^verbatim>\<open>while\<close> loop: the first link whose target device passes, \<^verbatim>\<open>NULL\<close> at the end
  of the list.
\<close>

fun preferred_loop :: "filter_matches \<Rightarrow> heap \<Rightarrow> gpointer \<Rightarrow> gpointer list \<Rightarrow> gpointer" where
  "preferred_loop fm h filter' [] = NULL"
| "preferred_loop fm h filter' (link # next) =
     (let dev = osinfo_devicelink_get_target h link
      in if filter' = NULL \<or> fm filter' dev then link
         else preferred_loop fm h filter' next)"

text \<open>
  \<^verbatim>\<open>g_return_val_if_fail(cond, NULL)\<close> returns \<^verbatim>\<open>NULL\<close> when the condition fails. The
  third guard is \<^verbatim>\<open>OSINFO_IS_FILTER(filter)\<close>, without the \<^verbatim>\<open>!filter ||\<close> of the
  list queries.
\<close>

definition osinfo_os_get_preferred_device_link ::
  "filter_matches \<Rightarrow> heap \<Rightarrow> gpointer \<Rightarrow> gpointer \<Rightarrow> gpointer \<Rightarrow> gpointer" where
  "osinfo_os_get_preferred_device_link fm h os platform filter' =
     (if \<not> OSINFO_IS_OS h os then NULL
      else if \<not> (platform = NULL \<or> OSINFO_IS_PLATFORM h platform) then NULL
      else if \<not> OSINFO_IS_FILTER h filter' then NULL
      else preferred_loop fm h filter' (selected_links h os platform))"

subsection \<open>\<^verbatim>\<open>osinfo_os_get_preferred_device\<close>\<close>

definition osinfo_os_get_preferred_device ::
  "filter_matches \<Rightarrow> heap \<Rightarrow> gpointer \<Rightarrow> gpointer \<Rightarrow> gpointer \<Rightarrow> gpointer" where
  "osinfo_os_get_preferred_device fm h os platform filter' =
     (if \<not> OSINFO_IS_OS h os then NULL
      else if \<not> (platform = NULL \<or> OSINFO_IS_PLATFORM h platform) then NULL
      else if \<not> OSINFO_IS_FILTER h filter' then NULL
      else
        let link = osinfo_os_get_preferred_device_link fm h os platform filter'
        in if link \<noteq> NULL then osinfo_devicelink_get_target h link else NULL)"

subsection \<open>\<^verbatim>\<open>osinfo_os_get_devices\<close>\<close>

text \<open>
  The loop adds the target device of every link whose target passes to \<open>newList\<close>.
\<close>

fun get_devices_loop ::
  "filter_matches \<Rightarrow> heap \<Rightarrow> gpointer \<Rightarrow> gpointer list \<Rightarrow> gpointer list \<Rightarrow> gpointer list" where
  "get_devices_loop fm h filter' [] newList = newList"
| "get_devices_loop fm h filter' (link # next) newList =
     (let dev = osinfo_devicelink_get_target h link
      in get_devices_loop fm h filter' next
           (if filter' = NULL \<or> fm filter' dev then osinfo_list_add newList dev else newList))"

text \<open>
  The result is \<open>None\<close> for the \<^verbatim>\<open>NULL\<close> of a failed guard, \<open>Some\<close> of the
  elements of the new list otherwise.
\<close>

definition osinfo_os_get_devices ::
  "filter_matches \<Rightarrow> heap \<Rightarrow> gpointer \<Rightarrow> gpointer \<Rightarrow> gpointer \<Rightarrow> gpointer list option" where
  "osinfo_os_get_devices fm h os platform filter' =
     (if \<not> OSINFO_IS_OS h os then None
      else if \<not> (platform = NULL \<or> OSINFO_IS_PLATFORM h platform) then None
      else if \<not> (filter' = NULL \<or> OSINFO_IS_FILTER h filter') then None
      else Some (get_devices_loop fm h filter' (selected_links h os platform) osinfo_list_new))"

subsection \<open>\<^verbatim>\<open>osinfo_os_get_device_links\<close>\<close>

text \<open>The loop adds every link that passes, the filter applied to the link.\<close>

fun get_device_links_loop ::
  "filter_matches \<Rightarrow> gpointer \<Rightarrow> gpointer list \<Rightarrow> gpointer list \<Rightarrow> gpointer list" where
  "get_device_links_loop fm filter' [] newList = newList"
| "get_device_links_loop fm filter' (link # next) newList =
     get_device_links_loop fm filter' next
       (if filter' = NULL \<or> fm filter' link then osinfo_list_add newList link else newList)"

definition osinfo_os_get_device_links ::
  "filter_matches \<Rightarrow> heap \<Rightarrow> gpointer \<Rightarrow> gpointer \<Rightarrow> gpointer \<Rightarrow> gpointer list option" where
  "osinfo_os_get_device_links fm h os platform filter' =
     (if \<not> OSINFO_IS_OS h os then None
      else if \<not> (platform = NULL \<or> OSINFO_IS_PLATFORM h platform) then None
      else if \<not> (filter' = NULL \<or> OSINFO_IS_FILTER h filter') then None
      else Some (get_device_links_loop fm filter' (selected_links h os platform) osinfo_list_new))"

subsection \<open>\<^verbatim>\<open>osinfo_os_add_device\<close>\<close>

text \<open>
  The platform branch: when the key is there, the table gives up key and list
  (\<^verbatim>\<open>g_hash_table_steal\<close>) and \<open>tmp\<close> is the old list; the link is appended to
  \<open>tmp\<close> and the list goes back under the key.
\<close>

definition add_platform_link ::
  "(string \<Rightarrow> gpointer list option) \<Rightarrow> string \<Rightarrow> gpointer
    \<Rightarrow> (string \<Rightarrow> gpointer list option)" where
  "add_platform_link table key link =
     (case g_hash_table_lookup_extended table key of
        Some origValue \<Rightarrow>
          g_hash_table_insert (g_hash_table_steal table key) key (g_list_append origValue link)
      | None \<Rightarrow> g_hash_table_insert table key (g_list_append [] link))"

text \<open>The new heap and the returned link; \<^verbatim>\<open>NULL\<close> and the old heap on a failed guard.\<close>

definition osinfo_os_add_device ::
  "heap \<Rightarrow> gpointer \<Rightarrow> gpointer \<Rightarrow> gpointer \<Rightarrow> heap \<times> gpointer" where
  "osinfo_os_add_device h os platform dev =
     (if \<not> OSINFO_IS_OS h os then (h, NULL)
      else if \<not> (platform = NULL \<or> OSINFO_IS_PLATFORM h platform) then (h, NULL)
      else if \<not> OSINFO_IS_DEVICE h dev then (h, NULL)
      else
        let (h1, link) = osinfo_devicelink_new h dev;
            priv = os_priv h1 os
        in if platform \<noteq> NULL
           then (set_os_priv h1 os
                   (priv\<lparr>platforms :=
                      add_platform_link (platforms priv) (osinfo_entity_get_id h1 platform) link\<rparr>),
                 link)
           else (set_os_priv h1 os
                   (priv\<lparr>deviceLinks := g_list_append (deviceLinks priv) link\<rparr>),
                 link))"

section \<open>Calls and states\<close>

text \<open>The three guards of \<^verbatim>\<open>osinfo_os_add_device\<close>, and those of the queries.\<close>

definition add_device_ok :: "heap \<Rightarrow> gpointer \<Rightarrow> gpointer \<Rightarrow> gpointer \<Rightarrow> bool" where
  "add_device_ok h os platform dev =
     (OSINFO_IS_OS h os \<and> (platform = NULL \<or> OSINFO_IS_PLATFORM h platform) \<and>
      OSINFO_IS_DEVICE h dev)"

definition query_ok :: "heap \<Rightarrow> gpointer \<Rightarrow> gpointer \<Rightarrow> gpointer \<Rightarrow> bool" where
  "query_ok h os platform filter' =
     (OSINFO_IS_OS h os \<and> (platform = NULL \<or> OSINFO_IS_PLATFORM h platform) \<and>
      (filter' = NULL \<or> OSINFO_IS_FILTER h filter'))"

definition preferred_ok :: "heap \<Rightarrow> gpointer \<Rightarrow> gpointer \<Rightarrow> gpointer \<Rightarrow> bool" where
  "preferred_ok h os platform filter' =
     (OSINFO_IS_OS h os \<and> (platform = NULL \<or> OSINFO_IS_PLATFORM h platform) \<and>
      OSINFO_IS_FILTER h filter')"

text \<open>
  Two platform arguments select the same list: both are \<^verbatim>\<open>NULL\<close>, or neither is and
  their identifiers, the keys of the hash table, are equal.
\<close>

definition same_scope :: "heap \<Rightarrow> gpointer \<Rightarrow> gpointer \<Rightarrow> bool" where
  "same_scope h p q =
     (if p = NULL then q = NULL
      else q \<noteq> NULL \<and> osinfo_entity_get_id h p = osinfo_entity_get_id h q)"

text \<open>
  A sequence of \<^verbatim>\<open>osinfo_os_add_device\<close> calls on one operating system, each call a
  pair of platform and device: the last heap and the link each call returned.
\<close>

fun add_devices :: "heap \<Rightarrow> gpointer \<Rightarrow> (gpointer \<times> gpointer) list \<Rightarrow> heap \<times> gpointer list" where
  "add_devices h os [] = (h, [])"
| "add_devices h os ((platform, dev) # calls) =
     (let (h1, link) = osinfo_os_add_device h os platform dev;
          (h2, links) = add_devices h1 os calls
      in (h2, link # links))"

text \<open>
  The heaps an operating system at address \<open>os\<close> can be in: any heap in which it is as
  \<^verbatim>\<open>osinfo_os_init\<close> left it, and from there any \<^verbatim>\<open>osinfo_os_add_device\<close> on it, with
  any arguments, and any creation of another object.
\<close>

inductive reachable :: "gpointer \<Rightarrow> heap \<Rightarrow> bool" for os :: gpointer where
  init: "deref h os = Some (OsinfoOs ident osinfo_os_init) \<Longrightarrow> reachable os h"
| add: "reachable os h \<Longrightarrow> reachable os (fst (osinfo_os_add_device h os platform dev))"
| new: "reachable os h \<Longrightarrow> reachable os (fst (g_object_new h obj))"

text \<open>
  The list of a scope: \<^verbatim>\<open>deviceLinks\<close> for no platform, the list under the key for a
  platform identifier. The scope of a platform argument is its identifier.
\<close>

fun scope_links :: "OsinfoOsPrivate \<Rightarrow> string option \<Rightarrow> gpointer list" where
  "scope_links priv None = deviceLinks priv"
| "scope_links priv (Some key) = g_hash_table_lookup (platforms priv) key"

definition scope_of :: "heap \<Rightarrow> gpointer \<Rightarrow> string option" where
  "scope_of h platform =
     (if platform = NULL then None else Some (osinfo_entity_get_id h platform))"

text \<open>
  What holds of the lists of the operating system in all these heaps: no list under a
  key is empty, every link is the address of a live object, no link is recorded twice
  in a list, and no link is in the lists of two scopes.
\<close>

definition links_live :: "heap \<Rightarrow> gpointer list \<Rightarrow> bool" where
  "links_live h links = (\<forall>link\<in>set links. link \<noteq> NULL \<and> link \<le> length h)"

definition index_inv :: "heap \<Rightarrow> gpointer \<Rightarrow> bool" where
  "index_inv h os =
     (OSINFO_IS_OS h os \<and>
      (\<forall>key. platforms (os_priv h os) key \<noteq> Some []) \<and>
      (\<forall>scope. links_live h (scope_links (os_priv h os) scope) \<and>
                distinct (scope_links (os_priv h os) scope)) \<and>
      (\<forall>scope scope'. scope \<noteq> scope' \<longrightarrow>
         set (scope_links (os_priv h os) scope) \<inter>
         set (scope_links (os_priv h os) scope') = {}))"

subsection \<open>An example\<close>

text \<open>
  A heap with one operating system at address 1, the platforms \<open>kvm\<close> at 2 and
  \<open>xen\<close> at 3, the devices \<open>e1000\<close> at 4 and \<open>rtl8139\<close> at 5 and a
  filter at 6. Five calls: both devices without a platform, both under \<open>kvm\<close> in
  the other order, and one call whose device argument is the filter. The links of the
  four good calls are at the addresses 7 to 10.
\<close>

definition fresh_heap :: heap where
  "fresh_heap =
     [OsinfoOs ''fedora'' osinfo_os_init, OsinfoPlatform ''kvm'', OsinfoPlatform ''xen'',
      OsinfoDevice ''e1000'', OsinfoDevice ''rtl8139'', OsinfoFilter]"

definition example_calls :: "(gpointer \<times> gpointer) list" where
  "example_calls = [(NULL, 4), (NULL, 5), (2, 5), (2, 4), (NULL, 6)]"

definition example_heap :: heap where
  "example_heap = fst (add_devices fresh_heap 1 example_calls)"

text \<open>A matching function under which every filter matches every entity.\<close>

definition matches_all :: filter_matches where
  "matches_all filter' entity = True"

section \<open>The heap after a write\<close>

lemma deref_NULL [simp]: "deref h NULL = None"
  by (simp add: deref_def)

lemma deref_new:
  "deref (h @ [obj]) p = (if p = Suc (length h) then Some obj else deref h p)"
  by (auto simp: deref_def nth_append)

lemma deref_store:
  "deref (store h q obj) p = (if p = q \<and> deref h q \<noteq> None then Some obj else deref h p)"
  by (auto simp: deref_def store_def nth_list_update)

lemma length_store [simp]: "length (store h q obj) = length h"
  by (simp add: store_def)

lemma deref_live: "deref h p = Some obj \<Longrightarrow> 0 < p \<and> p \<le> length h"
  by (auto simp: deref_def split: if_splits)

lemma deref_beyond [simp]: "deref h (Suc (length h)) = None"
  by (simp add: deref_def)

lemma IS_OS_iff: "OSINFO_IS_OS h os = (\<exists>ident priv. deref h os = Some (OsinfoOs ident priv))"
proof (cases "deref h os")
  case None
  then show ?thesis by (simp add: OSINFO_IS_OS_def)
next
  case (Some obj)
  then show ?thesis by (cases obj) (simp_all add: OSINFO_IS_OS_def)
qed

lemma add_device_fail:
  "\<not> add_device_ok h os platform dev \<Longrightarrow> osinfo_os_add_device h os platform dev = (h, NULL)"
  by (auto simp: add_device_ok_def osinfo_os_add_device_def)

lemma add_device_link:
  "add_device_ok h os platform dev \<Longrightarrow>
     snd (osinfo_os_add_device h os platform dev) = Suc (length h)"
  by (auto simp: add_device_ok_def osinfo_os_add_device_def osinfo_devicelink_new_def
      g_object_new_def Let_def)

lemma add_device_length:
  "add_device_ok h os platform dev \<Longrightarrow>
     length (fst (osinfo_os_add_device h os platform dev)) = Suc (length h)"
  by (auto simp: add_device_ok_def osinfo_os_add_device_def osinfo_devicelink_new_def
      g_object_new_def Let_def set_os_priv_def split: option.splits)

lemma add_device_deref_other:
  "add_device_ok h os platform dev \<Longrightarrow> p \<noteq> os \<Longrightarrow>
     deref (fst (osinfo_os_add_device h os platform dev)) p =
       (if p = Suc (length h) then Some (OsinfoDeviceLink dev None) else deref h p)"
  by (auto simp: add_device_ok_def osinfo_os_add_device_def osinfo_devicelink_new_def
      g_object_new_def Let_def set_os_priv_def deref_store deref_new split: option.splits)

lemma add_device_deref_os:
  "add_device_ok h os platform dev \<Longrightarrow> deref h os = Some (OsinfoOs ident priv) \<Longrightarrow>
     deref (fst (osinfo_os_add_device h os platform dev)) os =
       Some (OsinfoOs ident
         (if platform \<noteq> NULL
          then priv\<lparr>platforms :=
                 add_platform_link (platforms priv) (osinfo_entity_get_id h platform)
                   (Suc (length h))\<rparr>
          else priv\<lparr>deviceLinks := deviceLinks priv @ [Suc (length h)]\<rparr>))"
  apply (frule deref_live)
  apply (auto simp: add_device_ok_def osinfo_os_add_device_def osinfo_devicelink_new_def
      g_object_new_def Let_def set_os_priv_def deref_store deref_new os_priv_def g_list_append_def
      osinfo_entity_get_id_def OSINFO_IS_PLATFORM_def
      split: option.splits)
  done

lemma IS_OS_E:
  assumes "OSINFO_IS_OS h os"
  obtains ident priv where "deref h os = Some (OsinfoOs ident priv)"
  using assms by (auto simp: IS_OS_iff)

lemma add_device_observe:
  assumes os: "\<And>ident p p'. k (OsinfoOs ident p) = k (OsinfoOs ident p')"
    and link: "\<And>d. k (OsinfoDeviceLink d None) = z"
  shows "(case deref (fst (osinfo_os_add_device h os platform dev)) x of
            None \<Rightarrow> z | Some obj \<Rightarrow> k obj) =
         (case deref h x of None \<Rightarrow> z | Some obj \<Rightarrow> k obj)"
proof (cases "add_device_ok h os platform dev")
  case False
  then show ?thesis by (simp add: add_device_fail)
next
  case True
  then obtain ident priv where at_os: "deref h os = Some (OsinfoOs ident priv)"
    by (auto simp: add_device_ok_def elim: IS_OS_E)
  show ?thesis
  proof (cases "x = os")
    case True
    with at_os add_device_deref_os [OF \<open>add_device_ok h os platform dev\<close> at_os] os
    show ?thesis by simp
  next
    case False
    with add_device_deref_other [OF \<open>add_device_ok h os platform dev\<close> False] link
    show ?thesis by simp
  qed
qed

lemma add_device_IS_PLATFORM [simp]:
  "OSINFO_IS_PLATFORM (fst (osinfo_os_add_device h os platform dev)) x = OSINFO_IS_PLATFORM h x"
  unfolding OSINFO_IS_PLATFORM_def by (rule add_device_observe) simp_all

lemma add_device_IS_DEVICE [simp]:
  "OSINFO_IS_DEVICE (fst (osinfo_os_add_device h os platform dev)) x = OSINFO_IS_DEVICE h x"
  unfolding OSINFO_IS_DEVICE_def by (rule add_device_observe) simp_all

lemma add_device_IS_FILTER [simp]:
  "OSINFO_IS_FILTER (fst (osinfo_os_add_device h os platform dev)) x = OSINFO_IS_FILTER h x"
  unfolding OSINFO_IS_FILTER_def by (rule add_device_observe) simp_all

lemma add_device_IS_OS [simp]:
  "OSINFO_IS_OS (fst (osinfo_os_add_device h os platform dev)) x = OSINFO_IS_OS h x"
  unfolding OSINFO_IS_OS_def by (rule add_device_observe) simp_all

lemma add_device_entity_id [simp]:
  "osinfo_entity_get_id (fst (osinfo_os_add_device h os platform dev)) x =
     osinfo_entity_get_id h x"
  unfolding osinfo_entity_get_id_def by (rule add_device_observe) simp_all

lemma add_device_ok_step [simp]:
  "add_device_ok (fst (osinfo_os_add_device h os platform dev)) os' platform' dev' =
     add_device_ok h os' platform' dev'"
  by (simp add: add_device_ok_def)

lemma add_device_same_scope [simp]:
  "same_scope (fst (osinfo_os_add_device h os platform dev)) p q = same_scope h p q"
  by (simp add: same_scope_def)

lemma add_device_target:
  "osinfo_devicelink_get_target (fst (osinfo_os_add_device h os platform dev)) link =
     (if add_device_ok h os platform dev \<and> link = Suc (length h) then dev
      else osinfo_devicelink_get_target h link)"
proof (cases "add_device_ok h os platform dev")
  case False
  then show ?thesis by (simp add: add_device_fail)
next
  case True
  then obtain ident priv where os: "deref h os = Some (OsinfoOs ident priv)"
    by (auto simp: add_device_ok_def elim: IS_OS_E)
  show ?thesis
  proof (cases "link = os")
    case True
    with os add_device_deref_os [OF \<open>add_device_ok h os platform dev\<close> os] deref_live [OF os]
    show ?thesis
      by (auto simp: osinfo_devicelink_get_target_def)
  next
    case False
    with add_device_deref_other [OF \<open>add_device_ok h os platform dev\<close> False]
      \<open>add_device_ok h os platform dev\<close> show ?thesis
      by (simp add: osinfo_devicelink_get_target_def)
  qed
qed

lemma add_platform_link_apply:
  "add_platform_link table key link k =
     (if k = key then Some (g_hash_table_lookup table key @ [link]) else table k)"
  by (simp add: add_platform_link_def g_hash_table_lookup_extended_def g_hash_table_insert_def
      g_hash_table_steal_def g_hash_table_lookup_def g_list_append_def split: option.splits)

lemma add_device_os_priv:
  assumes "add_device_ok h os platform dev"
  shows "os_priv (fst (osinfo_os_add_device h os platform dev)) os =
     (if platform \<noteq> NULL
      then (os_priv h os)\<lparr>platforms :=
             add_platform_link (platforms (os_priv h os)) (osinfo_entity_get_id h platform)
               (Suc (length h))\<rparr>
      else (os_priv h os)\<lparr>deviceLinks := deviceLinks (os_priv h os) @ [Suc (length h)]\<rparr>)"
proof -
  from assms obtain ident priv where os: "deref h os = Some (OsinfoOs ident priv)"
    by (auto simp: add_device_ok_def elim: IS_OS_E)
  from add_device_deref_os [OF assms os] os show ?thesis
    by (simp add: os_priv_def)
qed

lemma add_device_selected_links:
  "selected_links (fst (osinfo_os_add_device h os platform dev)) os q =
     selected_links h os q @
       (if add_device_ok h os platform dev \<and> same_scope h platform q
        then [Suc (length h)] else [])"
proof (cases "add_device_ok h os platform dev")
  case False
  then show ?thesis by (simp add: add_device_fail)
next
  case True
  then show ?thesis
    by (auto simp: selected_links_def add_device_os_priv add_platform_link_apply
        same_scope_def g_hash_table_lookup_def)
qed

subsection \<open>The loops\<close>

lemma get_devices_loop_eq:
  "get_devices_loop fm h f links newList =
     newList @ map (osinfo_devicelink_get_target h)
       (filter (\<lambda>link. f = NULL \<or> fm f (osinfo_devicelink_get_target h link)) links)"
  by (induction links arbitrary: newList) (simp_all add: osinfo_list_add_def Let_def)

lemma get_device_links_loop_eq:
  "get_device_links_loop fm f links newList =
     newList @ filter (\<lambda>link. f = NULL \<or> fm f link) links"
  by (induction links arbitrary: newList) (simp_all add: osinfo_list_add_def)

lemma preferred_loop_none:
  "\<forall>link\<in>set links. \<not> (f = NULL \<or> fm f (osinfo_devicelink_get_target h link)) \<Longrightarrow>
     preferred_loop fm h f links = NULL"
  by (induction links) (simp_all add: Let_def)

lemma preferred_loop_first:
  "\<forall>link\<in>set pre. \<not> (f = NULL \<or> fm f (osinfo_devicelink_get_target h link)) \<Longrightarrow>
   f = NULL \<or> fm f (osinfo_devicelink_get_target h link) \<Longrightarrow>
     preferred_loop fm h f (pre @ link # post) = link"
  by (induction pre) (simp_all add: Let_def)

section \<open>The lists in every reachable heap\<close>

lemma selected_links_scope:
  "selected_links h os platform = scope_links (os_priv h os) (scope_of h platform)"
  by (simp add: selected_links_def scope_of_def)

lemma add_device_scope_links:
  assumes "add_device_ok h os platform dev"
  shows "scope_links (os_priv (fst (osinfo_os_add_device h os platform dev)) os) scope =
     scope_links (os_priv h os) scope @
       (if scope = scope_of h platform then [Suc (length h)] else [])"
  by (cases scope)
    (auto simp: add_device_os_priv [OF assms] scope_of_def add_platform_link_apply
      g_hash_table_lookup_def)

lemma add_device_platforms_nonempty:
  assumes "add_device_ok h os platform dev"
    and "\<forall>key. platforms (os_priv h os) key \<noteq> Some []"
  shows "platforms (os_priv (fst (osinfo_os_add_device h os platform dev)) os) key \<noteq> Some []"
  using assms(2) by (auto simp: add_device_os_priv [OF assms(1)] add_platform_link_apply)

lemma links_live_grow:
  "links_live h links \<Longrightarrow> length h \<le> length h' \<Longrightarrow> links_live h' links"
  by (auto simp: links_live_def)

lemma links_live_fresh: "links_live h links \<Longrightarrow> Suc (length h) \<notin> set links"
  by (auto simp: links_live_def)

lemma links_live_new:
  "links_live h links \<Longrightarrow> length h' = Suc (length h) \<Longrightarrow>
     links_live h' (links @ [Suc (length h)])"
  by (auto simp: links_live_def)

lemma os_priv_new:
  "OSINFO_IS_OS h os \<Longrightarrow> os_priv (fst (g_object_new h obj)) os = os_priv h os"
  by (auto simp: os_priv_def g_object_new_def deref_new OSINFO_IS_OS_def split: option.splits)

lemma IS_OS_new: "OSINFO_IS_OS h os \<Longrightarrow> OSINFO_IS_OS (fst (g_object_new h obj)) os"
  by (auto simp: g_object_new_def deref_new OSINFO_IS_OS_def split: option.splits)

lemma index_inv_init:
  assumes "deref h os = Some (OsinfoOs ident osinfo_os_init)"
  shows "index_inv h os"
proof -
  from assms have "os_priv h os = osinfo_os_init" and "OSINFO_IS_OS h os"
    by (simp_all add: os_priv_def OSINFO_IS_OS_def)
  moreover have "scope_links osinfo_os_init scope = []" for scope
    by (cases scope) (simp_all add: osinfo_os_init_def g_hash_table_lookup_def)
  ultimately show ?thesis
    by (simp add: index_inv_def links_live_def osinfo_os_init_def)
qed

lemma index_inv_new:
  assumes "index_inv h os"
  shows "index_inv (fst (g_object_new h obj)) os"
proof -
  from assms have "OSINFO_IS_OS h os" by (simp add: index_inv_def)
  then have "os_priv (fst (g_object_new h obj)) os = os_priv h os"
    and "OSINFO_IS_OS (fst (g_object_new h obj)) os"
    by (simp_all add: os_priv_new IS_OS_new)
  moreover have "length h \<le> length (fst (g_object_new h obj))"
    by (simp add: g_object_new_def)
  ultimately show ?thesis
    using assms unfolding index_inv_def by (auto intro: links_live_grow)
qed

lemma index_inv_add:
  assumes inv: "index_inv h os"
  shows "index_inv (fst (osinfo_os_add_device h os platform dev)) os"
proof (cases "add_device_ok h os platform dev")
  case False
  with inv show ?thesis by (simp add: add_device_fail)
next
  case True
  let ?h' = "fst (osinfo_os_add_device h os platform dev)"
  from inv have live: "links_live h (scope_links (os_priv h os) scope)"
    and dist: "distinct (scope_links (os_priv h os) scope)"
    and nonempty: "\<forall>key. platforms (os_priv h os) key \<noteq> Some []" for scope
    by (simp_all add: index_inv_def)
  from inv have apart: "set (scope_links (os_priv h os) scope) \<inter>
      set (scope_links (os_priv h os) scope') = {}" if "scope \<noteq> scope'" for scope scope'
    using that by (simp add: index_inv_def)
  have len: "length ?h' = Suc (length h)"
    by (rule add_device_length [OF True])
  have "OSINFO_IS_OS ?h' os"
    using inv by (simp add: index_inv_def)
  moreover have "\<forall>key. platforms (os_priv ?h' os) key \<noteq> Some []"
    using add_device_platforms_nonempty [OF True nonempty] by simp
  moreover have "links_live ?h' (scope_links (os_priv ?h' os) scope)" for scope
    using live [of scope] len
    by (auto simp: add_device_scope_links [OF True] intro: links_live_new links_live_grow)
  moreover have "distinct (scope_links (os_priv ?h' os) scope)" for scope
    using dist [of scope] links_live_fresh [OF live [of scope]]
    by (auto simp: add_device_scope_links [OF True])
  moreover have "set (scope_links (os_priv ?h' os) scope) \<inter>
      set (scope_links (os_priv ?h' os) scope') = {}" if "scope \<noteq> scope'" for scope scope'
    using apart [OF that] that links_live_fresh [OF live [of scope]]
      links_live_fresh [OF live [of scope']]
    by (auto simp: add_device_scope_links [OF True])
  ultimately show ?thesis
    unfolding index_inv_def by blast
qed

lemma osinfo_os_new_reachable:
  "reachable (snd (osinfo_os_new h ident)) (fst (osinfo_os_new h ident))"
  by (rule reachable.init [where ident = ident])
    (simp add: osinfo_os_new_def g_object_new_def deref_new)

lemma reachable_inv: "reachable os h \<Longrightarrow> index_inv h os"
  by (induction rule: reachable.induct) (auto intro: index_inv_init index_inv_add index_inv_new)

lemma add_device_result:
  "osinfo_os_add_device h os platform dev = (h', link) \<Longrightarrow>
     h' = fst (osinfo_os_add_device h os platform dev) \<and>
     link = (if add_device_ok h os platform dev then Suc (length h) else NULL)"
  by (cases "add_device_ok h os platform dev")
    (auto simp: add_device_fail dest: add_device_link [of h os platform dev])

lemma add_device_targets_live:
  assumes "links_live h links"
  shows "map (osinfo_devicelink_get_target (fst (osinfo_os_add_device h os platform dev))) links =
         map (osinfo_devicelink_get_target h) links"
  using links_live_fresh [OF assms] by (auto simp: add_device_target)

lemma reachable_add_devices:
  "reachable os h \<Longrightarrow> reachable os (fst (add_devices h os calls))"
proof (induction calls arbitrary: h)
  case Nil
  then show ?case by simp
next
  case (Cons call calls)
  obtain platform dev where call: "call = (platform, dev)" by (cases call)
  from Cons.prems have "reachable os (fst (osinfo_os_add_device h os platform dev))"
    by (rule reachable.add)
  from Cons.IH [OF this] show ?case
    by (simp add: call split_beta)
qed

lemma reachable_selected_live: "reachable os h \<Longrightarrow> links_live h (selected_links h os platform)"
  by (drule reachable_inv) (simp add: index_inv_def selected_links_scope)

lemma get_devices_loop_heap:
  "(\<And>link. link \<in> set links \<Longrightarrow>
      osinfo_devicelink_get_target h' link = osinfo_devicelink_get_target h link) \<Longrightarrow>
   get_devices_loop fm h' f links newList = get_devices_loop fm h f links newList"
  by (induction links arbitrary: newList) (simp_all add: Let_def)

lemma get_devices_add_device_other:
  assumes live: "links_live h (selected_links h os q)"
    and other: "\<not> (add_device_ok h os platform dev \<and> same_scope h platform q)"
  shows "osinfo_os_get_devices fm (fst (osinfo_os_add_device h os platform dev)) os q f =
         osinfo_os_get_devices fm h os q f"
proof -
  let ?h' = "fst (osinfo_os_add_device h os platform dev)"
  from other have same: "selected_links ?h' os q = selected_links h os q"
    by (auto simp: add_device_selected_links)
  have "osinfo_devicelink_get_target ?h' link = osinfo_devicelink_get_target h link"
    if "link \<in> set (selected_links h os q)" for link
    using that links_live_fresh [OF live] by (auto simp: add_device_target)
  then have "get_devices_loop fm ?h' f (selected_links ?h' os q) osinfo_list_new =
      get_devices_loop fm h f (selected_links h os q) osinfo_list_new"
    unfolding same by (rule get_devices_loop_heap)
  then show ?thesis
    by (simp only: osinfo_os_get_devices_def add_device_IS_OS add_device_IS_PLATFORM
        add_device_IS_FILTER)
qed

section \<open>Sequences of calls\<close>

lemma add_devices_selected_links:
  "add_devices h os calls = (h', returned) \<Longrightarrow>
     selected_links h' os q =
       selected_links h os q @
         map snd (filter (\<lambda>(call, link). link \<noteq> NULL \<and> same_scope h (fst call) q)
                    (zip calls returned))"
proof (induction calls arbitrary: h returned)
  case Nil
  then show ?case by simp
next
  case (Cons call calls)
  obtain platform dev where call: "call = (platform, dev)" by (cases call)
  obtain h1 link where step: "osinfo_os_add_device h os platform dev = (h1, link)"
    by (cases "osinfo_os_add_device h os platform dev")
  obtain links where rest: "add_devices h1 os calls = (h', links)"
    and returned: "returned = link # links"
    using Cons.prems by (auto simp: call step split: prod.splits)
  from add_device_result [OF step]
  have h1: "h1 = fst (osinfo_os_add_device h os platform dev)"
    and link: "link = (if add_device_ok h os platform dev then Suc (length h) else NULL)"
    by simp_all
  have "selected_links h1 os q = selected_links h os q @
      (if link \<noteq> NULL \<and> same_scope h platform q then [link] else [])"
    unfolding h1 add_device_selected_links using link by simp
  moreover have "same_scope h1 p q = same_scope h p q" for p
    unfolding h1 by simp
  ultimately show ?case
    using Cons.IH [OF rest] by (simp add: returned call)
qed

lemma add_devices_returned:
  "add_devices h os calls = (h', returned) \<Longrightarrow>
     length returned = length calls \<and> length h \<le> length h' \<and>
     (\<forall>link\<in>set returned. link \<noteq> NULL \<longrightarrow> length h < link \<and> link \<le> length h') \<and>
     distinct (filter (\<lambda>link. link \<noteq> NULL) returned)"
proof (induction calls arbitrary: h returned)
  case Nil
  then show ?case by simp
next
  case (Cons call calls)
  obtain platform dev where call: "call = (platform, dev)" by (cases call)
  obtain h1 link where step: "osinfo_os_add_device h os platform dev = (h1, link)"
    by (cases "osinfo_os_add_device h os platform dev")
  obtain links where rest: "add_devices h1 os calls = (h', links)"
    and returned: "returned = link # links"
    using Cons.prems by (auto simp: call step split: prod.splits)
  from add_device_result [OF step]
  have h1: "h1 = fst (osinfo_os_add_device h os platform dev)"
    and link: "link = (if add_device_ok h os platform dev then Suc (length h) else NULL)"
    by simp_all
  have grow: "length h \<le> length h1" and at: "link \<le> length h1"
    using add_device_length [of h os platform dev] link
    by (auto simp: h1 add_device_fail split: if_splits)
  from Cons.IH [OF rest] grow at link show ?case
    by (auto simp: returned split: if_splits)
qed

lemma selected_links_init:
  assumes "deref h os = Some (OsinfoOs ident osinfo_os_init)"
  shows "selected_links h os platform = []"
  using assms
  by (simp add: selected_links_def os_priv_def osinfo_os_init_def g_hash_table_lookup_def)

lemma add_devices_IS_OS [simp]:
  "OSINFO_IS_OS (fst (add_devices h os calls)) x = OSINFO_IS_OS h x"
proof (induction calls arbitrary: h)
  case Nil
  show ?case by simp
next
  case (Cons call calls)
  then show ?case by (cases call) (simp add: split_beta)
qed

lemma add_devices_IS_DEVICE [simp]:
  "OSINFO_IS_DEVICE (fst (add_devices h os calls)) x = OSINFO_IS_DEVICE h x"
proof (induction calls arbitrary: h)
  case Nil
  show ?case by simp
next
  case (Cons call calls)
  then show ?case by (cases call) (simp add: split_beta)
qed

lemma add_device_targets_append:
  assumes ok: "add_device_ok h os platform dev"
    and live: "links_live h (selected_links h os platform)"
  shows "map (osinfo_devicelink_get_target (fst (osinfo_os_add_device h os platform dev)))
           (selected_links (fst (osinfo_os_add_device h os platform dev)) os platform) =
         map (osinfo_devicelink_get_target h) (selected_links h os platform) @ [dev]"
proof -
  have "same_scope h platform platform"
    by (simp add: same_scope_def)
  with ok show ?thesis
    by (simp add: add_device_selected_links add_device_targets_live [OF live] add_device_target)
qed

lemma add_device_selected_live:
  assumes "links_live h (selected_links h os q)"
  shows "links_live (fst (osinfo_os_add_device h os platform dev))
           (selected_links (fst (osinfo_os_add_device h os platform dev)) os q)"
proof (cases "add_device_ok h os platform dev")
  case False
  with assms show ?thesis by (simp add: add_device_fail)
next
  case True
  from add_device_length [OF True] assms show ?thesis
    by (auto simp: add_device_selected_links intro: links_live_new links_live_grow)
qed

lemma add_devices_default_targets:
  assumes "OSINFO_IS_OS h os" and "\<forall>dev\<in>set devs. OSINFO_IS_DEVICE h dev"
    and "links_live h (selected_links h os NULL)"
  shows "map (osinfo_devicelink_get_target (fst (add_devices h os (map (Pair NULL) devs))))
           (selected_links (fst (add_devices h os (map (Pair NULL) devs))) os NULL) =
         map (osinfo_devicelink_get_target h) (selected_links h os NULL) @ devs"
  using assms
proof (induction devs arbitrary: h)
  case Nil
  then show ?case by simp
next
  case (Cons dev devs)
  let ?h1 = "fst (osinfo_os_add_device h os NULL dev)"
  from Cons.prems have ok: "add_device_ok h os NULL dev"
    by (simp add: add_device_ok_def)
  have "map (osinfo_devicelink_get_target (fst (add_devices ?h1 os (map (Pair NULL) devs))))
           (selected_links (fst (add_devices ?h1 os (map (Pair NULL) devs))) os NULL) =
         map (osinfo_devicelink_get_target ?h1) (selected_links ?h1 os NULL) @ devs"
    using Cons.prems by (intro Cons.IH add_device_selected_live) simp_all
  then show ?case
    by (simp add: split_beta add_device_targets_append [OF ok Cons.prems(3)])
qed

lemma get_devices_no_filter:
  "query_ok h os platform NULL \<Longrightarrow>
     osinfo_os_get_devices fm h os platform NULL =
       Some (map (osinfo_devicelink_get_target h) (selected_links h os platform))"
  by (simp add: query_ok_def osinfo_os_get_devices_def get_devices_loop_eq osinfo_list_new_def)

section \<open>The example, evaluated\<close>

lemmas example_defs =
  example_heap_def fresh_heap_def example_calls_def

lemmas model_defs =
  osinfo_os_add_device_def OSINFO_IS_OS_def OSINFO_IS_DEVICE_def OSINFO_IS_PLATFORM_def
  OSINFO_IS_FILTER_def deref_def
  osinfo_devicelink_new_def g_object_new_def os_priv_def set_os_priv_def store_def
  g_list_append_def osinfo_os_init_def osinfo_entity_get_id_def add_platform_link_def
  g_hash_table_lookup_extended_def g_hash_table_insert_def g_hash_table_steal_def
  g_hash_table_lookup_def selected_links_def osinfo_devicelink_get_target_def
  osinfo_list_add_def osinfo_list_new_def Let_def

lemma IS_PLATFORM_not_NULL: "OSINFO_IS_PLATFORM h p \<Longrightarrow> p \<noteq> NULL"
  by (cases "p = NULL") (simp_all add: OSINFO_IS_PLATFORM_def)

lemma IS_FILTER_not_NULL: "OSINFO_IS_FILTER h f \<Longrightarrow> f \<noteq> NULL"
  by (cases "f = NULL") (simp_all add: OSINFO_IS_FILTER_def)

lemma example_os [simp]: "OSINFO_IS_OS example_heap (Suc NULL)"
  by (simp add: example_defs model_defs)

lemma example_platforms [simp]:
  "OSINFO_IS_PLATFORM example_heap 2" "OSINFO_IS_PLATFORM example_heap 3"
  "\<not> OSINFO_IS_PLATFORM example_heap 4"
  by (simp_all add: example_defs model_defs)

lemma example_filter [simp]:
  "OSINFO_IS_FILTER example_heap 6" "\<not> OSINFO_IS_FILTER example_heap NULL"
  by (simp_all add: example_defs model_defs)

lemma example_selected [simp]:
  "selected_links example_heap (Suc NULL) NULL = [7, 8]"
  "selected_links example_heap (Suc NULL) 2 = [9, 10]"
  "selected_links example_heap (Suc NULL) 3 = []"
  by (simp_all add: example_defs model_defs)

lemma example_targets [simp]:
  "osinfo_devicelink_get_target example_heap 7 = 4"
  "osinfo_devicelink_get_target example_heap 8 = 5"
  "osinfo_devicelink_get_target example_heap 9 = 5"
  "osinfo_devicelink_get_target example_heap 10 = 4"
  by (simp_all add: example_defs model_defs)

lemma example_xen_absent:
  "platforms (os_priv example_heap (Suc NULL)) (osinfo_entity_get_id example_heap 3) = None"
  by (simp add: example_defs model_defs)

lemma example_kinds:
  "\<not> OSINFO_IS_OS example_heap 2" "\<not> OSINFO_IS_DEVICE example_heap 6"
  "\<not> OSINFO_IS_FILTER example_heap 4" "OSINFO_IS_DEVICE example_heap 4"
  by (simp_all add: example_defs model_defs)

lemma example_reachable: "reachable (Suc NULL) example_heap"
  unfolding example_heap_def One_nat_def
  by (rule reachable_add_devices, rule reachable.init [where ident = "''fedora''"])
    (simp add: fresh_heap_def deref_def)

lemma example_kvm_links:
  "platforms (os_priv example_heap (Suc NULL)) ''kvm'' = Some [9, 10]"
  by (simp add: example_defs model_defs)

lemma fresh_reachable: "reachable (Suc NULL) fresh_heap"
  by (rule reachable.init [where ident = "''fedora''"]) (simp add: fresh_heap_def deref_def)

lemma fresh_add_kvm:
  "snd (osinfo_os_add_device fresh_heap (Suc NULL) 2 4) = 7"
  "selected_links (fst (osinfo_os_add_device fresh_heap (Suc NULL) 2 4)) (Suc NULL) 2 = [7]"
  "selected_links fresh_heap (Suc NULL) 3 = []"
  "\<not> same_scope fresh_heap 2 3"
  by (simp_all add: fresh_heap_def same_scope_def model_defs)

lemma example_returned:
  "add_devices fresh_heap 1 example_calls = (example_heap, [7, 8, 9, 10, NULL])"
proof -
  have "snd (add_devices fresh_heap 1 example_calls) = [7, 8, 9, 10, NULL]"
    by (simp add: example_defs model_defs)
  then show ?thesis
    by (simp add: example_heap_def prod_eq_iff)
qed

lemma fresh_init: "deref fresh_heap 1 = Some (OsinfoOs ''fedora'' osinfo_os_init)"
  by (simp add: fresh_heap_def deref_def)

lemma example_add_kvm:
  "osinfo_os_add_device example_heap 1 2 4 =
     (fst (osinfo_os_add_device example_heap 1 2 4), 11)"
  "osinfo_os_add_device (fst (osinfo_os_add_device example_heap 1 2 4)) 1 2 5 =
     (fst (osinfo_os_add_device (fst (osinfo_os_add_device example_heap 1 2 4)) 1 2 5), 12)"
  "osinfo_os_add_device fresh_heap 1 2 4 = (fst (osinfo_os_add_device fresh_heap 1 2 4), 7)"
  "osinfo_os_add_device (fst (osinfo_os_add_device fresh_heap 1 2 4)) 1 2 5 =
     (fst (osinfo_os_add_device (fst (osinfo_os_add_device fresh_heap 1 2 4)) 1 2 5), 8)"
  by (simp_all add: prod_eq_iff example_defs model_defs)

lemma example_kvm_id: "osinfo_entity_get_id example_heap 2 = ''kvm''"
  by (simp add: example_defs model_defs)

lemma fresh_kinds:
  "OSINFO_IS_OS fresh_heap 1" "OSINFO_IS_PLATFORM fresh_heap 2"
  "OSINFO_IS_DEVICE fresh_heap 4" "OSINFO_IS_DEVICE fresh_heap 5"
  "selected_links fresh_heap 1 2 = []"
  by (simp_all add: fresh_heap_def model_defs)

lemma example_devices: "OSINFO_IS_DEVICE example_heap 4" "OSINFO_IS_DEVICE example_heap 5"
  by (simp_all add: example_heap_def fresh_kinds)

section \<open>The claims\<close>

text \<open>
  C1: the preferred queries with an absent filter. The doc comment of
  \<^verbatim>\<open>osinfo_os_get_preferred_device_link\<close> marks the filter \<^verbatim>\<open>(allow-none)\<close> and its
  loop lets every link pass when the filter is \<^verbatim>\<open>NULL\<close>, but the guard
  \<^verbatim>\<open>g_return_val_if_fail(OSINFO_IS_FILTER(filter), NULL)\<close> comes first. In the example
  the list without a platform holds the links 7 and 8 and the loop alone returns link
  7, yet both functions return \<^verbatim>\<open>NULL\<close> for the \<^verbatim>\<open>NULL\<close> filter, whatever the
  matching function is.
\<close>

theorem C1_preferred_rejects_absent_filter:
  "selected_links example_heap 1 NULL = [7, 8] \<and>
   preferred_loop fm example_heap NULL (selected_links example_heap 1 NULL) = 7 \<and>
   osinfo_os_get_preferred_device_link fm example_heap 1 NULL NULL = NULL \<and>
   osinfo_os_get_preferred_device fm example_heap 1 NULL NULL = NULL"
  by (simp add: osinfo_os_get_preferred_device_link_def osinfo_os_get_preferred_device_def)

text \<open>
  C3: \<^verbatim>\<open>osinfo_os_get_preferred_device_link\<close> with a filter applies the filter to the
  target device of each link of the selected list, in the order of the list. When no
  target matches (the empty list included) the result is \<^verbatim>\<open>NULL\<close>; when the list is
  \<open>pre @ link # post\<close>, no target of \<open>pre\<close> matches and the target of
  \<open>link\<close> does, the result is \<open>link\<close>.
\<close>

theorem C3_preferred_earliest_match:
  assumes "preferred_ok h os platform filter'"
  shows "((\<forall>link\<in>set (selected_links h os platform).
             \<not> fm filter' (osinfo_devicelink_get_target h link)) \<longrightarrow>
          osinfo_os_get_preferred_device_link fm h os platform filter' = NULL) \<and>
         (selected_links h os platform = pre @ link # post \<longrightarrow>
          (\<forall>earlier\<in>set pre. \<not> fm filter' (osinfo_devicelink_get_target h earlier)) \<longrightarrow>
          fm filter' (osinfo_devicelink_get_target h link) \<longrightarrow>
          osinfo_os_get_preferred_device_link fm h os platform filter' = link)"
proof -
  from assms have run: "osinfo_os_get_preferred_device_link fm h os platform filter' =
      preferred_loop fm h filter' (selected_links h os platform)"
    and present: "filter' \<noteq> NULL"
    by (auto simp: preferred_ok_def osinfo_os_get_preferred_device_link_def
        dest: IS_FILTER_not_NULL)
  show ?thesis
  proof (intro conjI impI)
    assume "\<forall>link\<in>set (selected_links h os platform).
              \<not> fm filter' (osinfo_devicelink_get_target h link)"
    with present show "osinfo_os_get_preferred_device_link fm h os platform filter' = NULL"
      unfolding run by (intro preferred_loop_none) simp
  next
    assume "selected_links h os platform = pre @ link # post"
      and "\<forall>earlier\<in>set pre. \<not> fm filter' (osinfo_devicelink_get_target h earlier)"
      and "fm filter' (osinfo_devicelink_get_target h link)"
    with present show "osinfo_os_get_preferred_device_link fm h os platform filter' = link"
      unfolding run by (simp add: preferred_loop_first)
  qed
qed

text \<open>
  In the example, under \<open>kvm\<close>: link 9 targets \<open>rtl8139\<close> and link 10 targets
  \<open>e1000\<close>. A filter matching \<open>e1000\<close> alone gives link 10; a filter matching
  neither device gives \<^verbatim>\<open>NULL\<close>.
\<close>

theorem C3_preferred_earliest_match_witness:
  "preferred_ok example_heap 1 2 6 \<and>
   selected_links example_heap 1 2 = [9] @ 10 # [] \<and>
   osinfo_devicelink_get_target example_heap 9 \<noteq> 4 \<and>
   osinfo_devicelink_get_target example_heap 10 = 4 \<and>
   osinfo_os_get_preferred_device_link (\<lambda>f e. e = 4) example_heap 1 2 6 = 10 \<and>
   osinfo_os_get_preferred_device_link (\<lambda>f e. e = 6) example_heap 1 2 6 = NULL"
proof -
  have ok: "preferred_ok example_heap 1 2 6"
    by (simp add: preferred_ok_def)
  from C3_preferred_earliest_match [OF ok, of "\<lambda>f e. e = 4" "[9]" 10 "[]"]
    C3_preferred_earliest_match [OF ok, of "\<lambda>f e. e = 6"] ok
  show ?thesis by simp
qed

text \<open>
  C7: \<^verbatim>\<open>osinfo_os_get_device_links\<close> and \<^verbatim>\<open>osinfo_os_get_devices\<close> walk the same
  selected list. The first keeps the links that the filter matches, the filter applied
  to the link, and returns these links in the order of the list; the second applies the
  filter to the target device of each link and returns the targets.
\<close>

theorem C7_device_links_filter_the_link:
  assumes "query_ok h os platform filter'"
  shows "osinfo_os_get_device_links fm h os platform filter' =
           Some (filter (\<lambda>link. filter' = NULL \<or> fm filter' link)
                   (selected_links h os platform)) \<and>
         osinfo_os_get_devices fm h os platform filter' =
           Some (map (osinfo_devicelink_get_target h)
                   (filter (\<lambda>link. filter' = NULL \<or>
                                fm filter' (osinfo_devicelink_get_target h link))
                      (selected_links h os platform)))"
  using assms
  by (simp add: query_ok_def osinfo_os_get_device_links_def osinfo_os_get_devices_def
      get_device_links_loop_eq get_devices_loop_eq osinfo_list_new_def)

text \<open>
  In the example, under \<open>kvm\<close>: a filter that matches the entity at address 10 (a
  link) selects link 10 in the one query and no device in the other; a filter that
  matches the entity at address 5 (the device \<open>rtl8139\<close>) selects no link in the one
  and the device in the other.
\<close>

theorem C7_device_links_filter_the_link_witness:
  "query_ok example_heap 1 2 6 \<and>
   osinfo_os_get_device_links (\<lambda>f e. e = 10) example_heap 1 2 6 = Some [10] \<and>
   osinfo_os_get_devices (\<lambda>f e. e = 10) example_heap 1 2 6 = Some [] \<and>
   osinfo_os_get_device_links (\<lambda>f e. e = 5) example_heap 1 2 6 = Some [] \<and>
   osinfo_os_get_devices (\<lambda>f e. e = 5) example_heap 1 2 6 = Some [5]"
proof -
  have ok: "query_ok example_heap 1 2 6"
    by (simp add: query_ok_def)
  from C7_device_links_filter_the_link [OF ok, of "\<lambda>f e. e = 10"]
    C7_device_links_filter_the_link [OF ok, of "\<lambda>f e. e = 5"] ok
  show ?thesis by simp
qed

text \<open>
  C6: a query on a platform with no recorded links, the key absent from the hash table
  or there with an empty list. The selected list is empty,
  \<^verbatim>\<open>osinfo_os_get_devices\<close> and \<^verbatim>\<open>osinfo_os_get_device_links\<close> return a new empty
  list (not the \<^verbatim>\<open>NULL\<close> of a failed guard), and the preferred queries return
  \<^verbatim>\<open>NULL\<close>.
\<close>

theorem C6_no_associations_empty_result:
  assumes "OSINFO_IS_OS h os" and "OSINFO_IS_PLATFORM h platform"
    and "platforms (os_priv h os) (osinfo_entity_get_id h platform) = None \<or>
         platforms (os_priv h os) (osinfo_entity_get_id h platform) = Some []"
  shows "selected_links h os platform = [] \<and>
         (filter' = NULL \<or> OSINFO_IS_FILTER h filter' \<longrightarrow>
            osinfo_os_get_devices fm h os platform filter' = Some [] \<and>
            osinfo_os_get_device_links fm h os platform filter' = Some []) \<and>
         osinfo_os_get_preferred_device_link fm h os platform filter' = NULL \<and>
         osinfo_os_get_preferred_device fm h os platform filter' = NULL"
proof -
  from assms(2,3) have empty: "selected_links h os platform = []"
    by (auto simp: selected_links_def g_hash_table_lookup_def dest: IS_PLATFORM_not_NULL)
  with assms(1,2) show ?thesis
    by (simp add: osinfo_os_get_devices_def osinfo_os_get_device_links_def
        osinfo_os_get_preferred_device_link_def osinfo_os_get_preferred_device_def
        osinfo_list_new_def)
qed

text \<open>
  In the example no call names the platform \<open>xen\<close> (address 3): its key is not in
  the table.
\<close>

theorem C6_no_associations_empty_result_witness:
  "OSINFO_IS_OS example_heap 1 \<and> OSINFO_IS_PLATFORM example_heap 3 \<and>
   platforms (os_priv example_heap 1) (osinfo_entity_get_id example_heap 3) = None \<and>
   osinfo_os_get_devices (\<lambda>f e. True) example_heap 1 3 NULL = Some [] \<and>
   osinfo_os_get_devices (\<lambda>f e. True) example_heap 1 3 6 = Some [] \<and>
   osinfo_os_get_device_links (\<lambda>f e. True) example_heap 1 3 NULL = Some [] \<and>
   osinfo_os_get_preferred_device_link (\<lambda>f e. True) example_heap 1 3 6 = NULL \<and>
   osinfo_os_get_preferred_device (\<lambda>f e. True) example_heap 1 3 6 = NULL"
proof -
  have "OSINFO_IS_OS example_heap 1" and "OSINFO_IS_PLATFORM example_heap 3"
    and "platforms (os_priv example_heap 1) (osinfo_entity_get_id example_heap 3) = None"
    by (simp_all add: example_xen_absent)
  from this C6_no_associations_empty_result [of example_heap 1 3 NULL "\<lambda>f e. True"]
    C6_no_associations_empty_result [of example_heap 1 3 6 "\<lambda>f e. True"]
  show ?thesis by simp
qed

text \<open>
  C10: a failed guard. \<^verbatim>\<open>osinfo_os_add_device\<close> returns \<^verbatim>\<open>NULL\<close> and the heap it
  was given. \<^verbatim>\<open>osinfo_os_get_devices\<close> and \<^verbatim>\<open>osinfo_os_get_device_links\<close> return
  \<^verbatim>\<open>NULL\<close> (\<open>None\<close>) exactly when a guard fails, so never for a list, empty or not.
  The preferred queries return \<^verbatim>\<open>NULL\<close> when a guard fails, the guard on the filter
  being \<^verbatim>\<open>OSINFO_IS_FILTER(filter)\<close>. The queries never write to the heap.
\<close>

theorem C10_failed_guard_returns_null:
  "(\<not> add_device_ok h os platform dev \<longrightarrow>
      osinfo_os_add_device h os platform dev = (h, NULL)) \<and>
   ((osinfo_os_get_devices fm h os platform filter' = None) =
      (\<not> query_ok h os platform filter')) \<and>
   ((osinfo_os_get_device_links fm h os platform filter' = None) =
      (\<not> query_ok h os platform filter')) \<and>
   (\<not> preferred_ok h os platform filter' \<longrightarrow>
      osinfo_os_get_preferred_device_link fm h os platform filter' = NULL \<and>
      osinfo_os_get_preferred_device fm h os platform filter' = NULL)"
  by (auto simp: add_device_fail query_ok_def preferred_ok_def osinfo_os_get_devices_def
      osinfo_os_get_device_links_def osinfo_os_get_preferred_device_link_def
      osinfo_os_get_preferred_device_def)

text \<open>
  In the example: a platform passed as the operating system, a device passed as the
  platform, the filter passed as the device, a device passed as the filter.
\<close>

theorem C10_failed_guard_returns_null_witness:
  "\<not> add_device_ok example_heap 2 NULL 4 \<and>
   osinfo_os_add_device example_heap 2 NULL 4 = (example_heap, NULL) \<and>
   \<not> add_device_ok example_heap 1 4 4 \<and>
   osinfo_os_add_device example_heap 1 4 4 = (example_heap, NULL) \<and>
   \<not> add_device_ok example_heap 1 NULL 6 \<and>
   osinfo_os_add_device example_heap 1 NULL 6 = (example_heap, NULL) \<and>
   \<not> query_ok example_heap 1 NULL 4 \<and>
   osinfo_os_get_devices (\<lambda>f e. True) example_heap 1 NULL 4 = None \<and>
   osinfo_os_get_device_links (\<lambda>f e. True) example_heap 1 NULL 4 = None \<and>
   query_ok example_heap 1 3 NULL \<and>
   osinfo_os_get_devices (\<lambda>f e. True) example_heap 1 3 NULL \<noteq> None \<and>
   \<not> preferred_ok example_heap 1 NULL 4 \<and>
   osinfo_os_get_preferred_device_link (\<lambda>f e. True) example_heap 1 NULL 4 = NULL \<and>
   osinfo_os_get_preferred_device (\<lambda>f e. True) example_heap 1 NULL 4 = NULL"
proof -
  have bad: "\<not> add_device_ok example_heap 2 NULL 4" "\<not> add_device_ok example_heap 1 4 4"
    "\<not> add_device_ok example_heap 1 NULL 6" "\<not> query_ok example_heap 1 NULL 4"
    "\<not> preferred_ok example_heap 1 NULL 4"
    and good: "query_ok example_heap 1 3 NULL"
    by (simp_all add: add_device_ok_def query_ok_def preferred_ok_def example_kinds)
  from bad good
    C10_failed_guard_returns_null [of example_heap 2 NULL 4 "\<lambda>f e. True" 4]
    C10_failed_guard_returns_null [of example_heap 1 4 4 "\<lambda>f e. True" 4]
    C10_failed_guard_returns_null [of example_heap 1 NULL 6 "\<lambda>f e. True" 4]
    C10_failed_guard_returns_null [of example_heap 1 3 6 "\<lambda>f e. True" NULL]
  show ?thesis by simp
qed

text \<open>
  C9: in every heap reachable from a freshly initialised operating system, a key of
  the hash table has a non-empty list. \<^verbatim>\<open>osinfo_os_add_device\<close> puts a key in only
  with the list it has just appended the link to, and a call only ever extends the
  list of a key.
\<close>

theorem C9_platform_lists_nonempty:
  assumes "reachable os h" and "platforms (os_priv h os) key = Some links"
  shows "links \<noteq> [] \<and>
         (\<exists>more. platforms (os_priv (fst (osinfo_os_add_device h os platform dev)) os) key =
                   Some (links @ more))"
proof
  from reachable_inv [OF assms(1)] assms(2) show "links \<noteq> []"
    by (auto simp: index_inv_def)
  show "\<exists>more. platforms (os_priv (fst (osinfo_os_add_device h os platform dev)) os) key =
                   Some (links @ more)"
  proof (cases "add_device_ok h os platform dev")
    case False
    with assms(2) show ?thesis by (simp add: add_device_fail)
  next
    case True
    with assms(2) show ?thesis
      by (auto simp: add_device_os_priv add_platform_link_apply g_hash_table_lookup_def)
  qed
qed

text \<open>In the example the key \<open>kvm\<close> has the list of the links 9 and 10.\<close>

theorem C9_platform_lists_nonempty_witness:
  "reachable 1 example_heap \<and> platforms (os_priv example_heap 1) ''kvm'' = Some [9, 10] \<and>
   [9, 10] \<noteq> ([] :: gpointer list) \<and>
   (\<exists>more. platforms (os_priv (fst (osinfo_os_add_device example_heap 1 2 5)) 1) ''kvm'' =
             Some ([9, 10] @ more))"
proof -
  have "reachable 1 example_heap"
    and "platforms (os_priv example_heap 1) ''kvm'' = Some [9, 10]"
    by (simp_all add: example_reachable example_kvm_links)
  from this C9_platform_lists_nonempty [OF this, of 2 5] show ?thesis
    by simp
qed

text \<open>
  C5, as the claim states it: after \<^verbatim>\<open>osinfo_os_add_device\<close> of a device under one
  platform, \<^verbatim>\<open>osinfo_os_get_devices\<close> for a platform with another identifier returns
  a result without that device. This fails when the device is already linked under the
  other platform, which the code allows: on the fresh heap, after \<open>e1000\<close> is added
  under \<open>xen\<close>, adding \<open>e1000\<close> under \<open>kvm\<close> is followed by a query for
  \<open>xen\<close> that returns \<open>e1000\<close>.
\<close>

theorem C5_isolation_counterexample:
  "reachable 1 (fst (osinfo_os_add_device fresh_heap 1 3 4)) \<and>
   osinfo_entity_get_id (fst (osinfo_os_add_device fresh_heap 1 3 4)) 2 = ''kvm'' \<and>
   osinfo_entity_get_id (fst (osinfo_os_add_device fresh_heap 1 3 4)) 3 = ''xen'' \<and>
   \<not> same_scope (fst (osinfo_os_add_device fresh_heap 1 3 4)) 2 3 \<and>
   snd (osinfo_os_add_device (fst (osinfo_os_add_device fresh_heap 1 3 4)) 1 2 4) = 8 \<and>
   osinfo_os_get_devices matches_all
     (fst (osinfo_os_add_device (fst (osinfo_os_add_device fresh_heap 1 3 4)) 1 2 4))
     1 3 NULL = Some [4]"
proof -
  have "reachable 1 (fst (osinfo_os_add_device fresh_heap 1 3 4))"
    using fresh_reachable by (simp add: reachable.add)
  moreover have
    "osinfo_entity_get_id (fst (osinfo_os_add_device fresh_heap 1 3 4)) 2 = ''kvm''"
    "osinfo_entity_get_id (fst (osinfo_os_add_device fresh_heap 1 3 4)) 3 = ''xen''"
    "\<not> same_scope (fst (osinfo_os_add_device fresh_heap 1 3 4)) 2 3"
    "snd (osinfo_os_add_device (fst (osinfo_os_add_device fresh_heap 1 3 4)) 1 2 4) = 8"
    "osinfo_os_get_devices matches_all
       (fst (osinfo_os_add_device (fst (osinfo_os_add_device fresh_heap 1 3 4)) 1 2 4))
       1 3 NULL = Some [4]"
    by (simp_all add: fresh_heap_def same_scope_def osinfo_os_get_devices_def model_defs)
  ultimately show ?thesis
    by blast
qed

text \<open>
  C5, amended: in every reachable heap no link of a keyed list is in
  \<^verbatim>\<open>deviceLinks\<close>, and the lists of two keys share no link. When the platform
  arguments \<open>platformA\<close> and \<open>platformB\<close> select different lists (one is
  \<^verbatim>\<open>NULL\<close> and the other not, or their identifiers differ), the link that
  \<^verbatim>\<open>osinfo_os_add_device\<close> returns for \<open>platformA\<close> is not in the list of
  \<open>platformB\<close>, and \<^verbatim>\<open>osinfo_os_get_devices\<close> for \<open>platformB\<close> returns what
  it returned before the call. So the result is without the device whenever no link
  already recorded for \<open>platformB\<close> targets it.
\<close>

theorem C5_scopes_disjoint:
  assumes "reachable os h"
  shows "(\<forall>key links. platforms (os_priv h os) key = Some links \<longrightarrow>
            set links \<inter> set (deviceLinks (os_priv h os)) = {}) \<and>
         (\<forall>key key' links links'. key \<noteq> key' \<longrightarrow>
            platforms (os_priv h os) key = Some links \<longrightarrow>
            platforms (os_priv h os) key' = Some links' \<longrightarrow>
            set links \<inter> set links' = {}) \<and>
         (\<not> same_scope h platformA platformB \<longrightarrow>
            snd (osinfo_os_add_device h os platformA dev) \<notin>
              set (selected_links (fst (osinfo_os_add_device h os platformA dev)) os platformB) \<and>
            osinfo_os_get_devices fm (fst (osinfo_os_add_device h os platformA dev)) os
                platformB NULL =
              osinfo_os_get_devices fm h os platformB NULL \<and>
            (\<forall>devs. (\<forall>link\<in>set (selected_links h os platformB).
                        osinfo_devicelink_get_target h link \<noteq> dev) \<longrightarrow>
                    osinfo_os_get_devices fm (fst (osinfo_os_add_device h os platformA dev)) os
                      platformB NULL = Some devs \<longrightarrow>
                    dev \<notin> set devs))"
proof (intro conjI allI impI)
  note inv = reachable_inv [OF assms]
  then have apart: "set (scope_links (os_priv h os) scope) \<inter>
      set (scope_links (os_priv h os) scope') = {}" if "scope \<noteq> scope'" for scope scope'
    using that by (simp add: index_inv_def)
  {
    fix key links
    assume "platforms (os_priv h os) key = Some links"
    with apart [of "Some key" None]
    show "set links \<inter> set (deviceLinks (os_priv h os)) = {}"
      by (simp add: g_hash_table_lookup_def)
  next
    fix key key' :: string and links links'
    assume "key \<noteq> key'" and "platforms (os_priv h os) key = Some links"
      and "platforms (os_priv h os) key' = Some links'"
    with apart [of "Some key" "Some key'"] show "set links \<inter> set links' = {}"
      by (simp add: g_hash_table_lookup_def)
  next
    assume other: "\<not> same_scope h platformA platformB"
    have live: "links_live h (selected_links h os platformB)"
      by (rule reachable_selected_live [OF assms])
    from other have "selected_links (fst (osinfo_os_add_device h os platformA dev)) os platformB =
        selected_links h os platformB"
      by (simp add: add_device_selected_links)
    moreover have "snd (osinfo_os_add_device h os platformA dev) \<notin>
        set (selected_links h os platformB)"
    proof (cases "add_device_ok h os platformA dev")
      case True
      with links_live_fresh [OF live] show ?thesis by (simp add: add_device_link)
    next
      case False
      with live show ?thesis by (auto simp: add_device_fail links_live_def)
    qed
    ultimately show "snd (osinfo_os_add_device h os platformA dev) \<notin>
        set (selected_links (fst (osinfo_os_add_device h os platformA dev)) os platformB)"
      by simp
    from other show same: "osinfo_os_get_devices fm (fst (osinfo_os_add_device h os platformA dev))
          os platformB NULL = osinfo_os_get_devices fm h os platformB NULL"
      by (intro get_devices_add_device_other live) simp
    fix devs
    assume "\<forall>link\<in>set (selected_links h os platformB).
              osinfo_devicelink_get_target h link \<noteq> dev"
      and "osinfo_os_get_devices fm (fst (osinfo_os_add_device h os platformA dev)) os
             platformB NULL = Some devs"
    then show "dev \<notin> set devs"
      unfolding same
      by (auto simp: osinfo_os_get_devices_def get_devices_loop_eq osinfo_list_new_def
          split: if_splits)
  }
qed

text \<open>
  In the example the links 9 and 10 under \<open>kvm\<close> are not in \<^verbatim>\<open>deviceLinks\<close>. On
  the fresh heap, adding \<open>e1000\<close> under \<open>kvm\<close> returns link 7, which is not in
  the list of \<open>xen\<close>, and the devices of \<open>xen\<close> are as before.
\<close>

theorem C5_scopes_disjoint_witness:
  "reachable 1 example_heap \<and>
   platforms (os_priv example_heap 1) ''kvm'' = Some [9, 10] \<and>
   set [9, 10] \<inter> set (deviceLinks (os_priv example_heap 1)) = {} \<and>
   reachable 1 fresh_heap \<and> \<not> same_scope fresh_heap 2 3 \<and>
   snd (osinfo_os_add_device fresh_heap 1 2 4) = 7 \<and>
   7 \<notin> set (selected_links (fst (osinfo_os_add_device fresh_heap 1 2 4)) 1 3) \<and>
   osinfo_os_get_devices (\<lambda>f e. True) (fst (osinfo_os_add_device fresh_heap 1 2 4)) 1 3 NULL =
     osinfo_os_get_devices (\<lambda>f e. True) fresh_heap 1 3 NULL"
proof -
  have ex: "reachable 1 example_heap" and fr: "reachable 1 fresh_heap"
    and kvm: "platforms (os_priv example_heap 1) ''kvm'' = Some [9, 10]"
    by (simp_all add: example_reachable fresh_reachable example_kvm_links)
  from C5_scopes_disjoint [OF ex, of 2 3 4 "\<lambda>f e. True"]
  have "\<forall>key links. platforms (os_priv example_heap 1) key = Some links \<longrightarrow>
      set links \<inter> set (deviceLinks (os_priv example_heap 1)) = {}"
    by (rule conjunct1)
  with kvm have "set [9, 10] \<inter> set (deviceLinks (os_priv example_heap 1)) = {}"
    by blast
  with ex fr kvm C5_scopes_disjoint [OF fr, of 2 3 4 "\<lambda>f e. True"]
  show ?thesis
    by (simp add: fresh_add_kvm)
qed

text \<open>
  C2: \<^verbatim>\<open>osinfo_os_add_device\<close> with a platform whose key already has a list puts the
  new link at the end of that list; the lists of the other keys and \<^verbatim>\<open>deviceLinks\<close>
  stay as they were. After two calls for the same platform the list of the platform
  is the old list followed by the two returned links. \<^verbatim>\<open>osinfo_os_get_devices\<close>
  without a filter then returns \<open>[d1, d2]\<close> when the platform had no link before,
  and in every reachable heap what it returned before followed by \<open>d1\<close> and \<open>d2\<close>.
\<close>

theorem C2_add_device_appends:
  assumes os: "OSINFO_IS_OS h os" and platform: "OSINFO_IS_PLATFORM h platform"
    and d1: "OSINFO_IS_DEVICE h d1" and d2: "OSINFO_IS_DEVICE h d2"
    and first: "osinfo_os_add_device h os platform d1 = (h1, link1)"
    and second: "osinfo_os_add_device h1 os platform d2 = (h2, link2)"
  shows "(\<forall>links. platforms (os_priv h os) (osinfo_entity_get_id h platform) = Some links \<longrightarrow>
            platforms (os_priv h1 os) (osinfo_entity_get_id h platform) =
              Some (links @ [link1])) \<and>
         (\<forall>key. key \<noteq> osinfo_entity_get_id h platform \<longrightarrow>
            platforms (os_priv h1 os) key = platforms (os_priv h os) key) \<and>
         deviceLinks (os_priv h1 os) = deviceLinks (os_priv h os) \<and>
         selected_links h2 os platform = selected_links h os platform @ [link1, link2] \<and>
         (selected_links h os platform = [] \<longrightarrow>
            osinfo_os_get_devices fm h2 os platform NULL = Some [d1, d2]) \<and>
         (reachable os h \<longrightarrow>
            (\<forall>before. osinfo_os_get_devices fm h os platform NULL = Some before \<longrightarrow>
               osinfo_os_get_devices fm h2 os platform NULL = Some (before @ [d1, d2])))"
proof -
  from platform have given: "platform \<noteq> NULL"
    by (rule IS_PLATFORM_not_NULL)
  from os platform d1 have ok1: "add_device_ok h os platform d1"
    by (simp add: add_device_ok_def)
  from add_device_result [OF first] ok1
  have h1: "h1 = fst (osinfo_os_add_device h os platform d1)" and link1: "link1 = Suc (length h)"
    by simp_all
  from os platform d2 have ok2: "add_device_ok h1 os platform d2"
    by (simp add: add_device_ok_def h1)
  from add_device_result [OF second] ok2
  have h2: "h2 = fst (osinfo_os_add_device h1 os platform d2)" and link2: "link2 = Suc (length h1)"
    by simp_all
  have priv: "os_priv h1 os = (os_priv h os)\<lparr>platforms :=
      add_platform_link (platforms (os_priv h os)) (osinfo_entity_get_id h platform) link1\<rparr>"
    unfolding h1 link1 using given by (simp add: add_device_os_priv [OF ok1])
  have scope: "same_scope h platform platform" "same_scope h1 platform platform"
    by (simp_all add: same_scope_def)
  have sel1: "selected_links h1 os platform = selected_links h os platform @ [link1]"
    unfolding h1 link1 using ok1 scope by (simp add: add_device_selected_links)
  have sel2: "selected_links h2 os platform = selected_links h1 os platform @ [link2]"
    unfolding h2 link2 using ok2 scope by (simp add: add_device_selected_links)
  have ok: "query_ok h2 os platform NULL" "query_ok h os platform NULL"
    using os platform by (simp_all add: query_ok_def h2 h1)
  have targets: "map (osinfo_devicelink_get_target h2) (selected_links h2 os platform) =
      map (osinfo_devicelink_get_target h) (selected_links h os platform) @ [d1, d2]"
    if live: "links_live h (selected_links h os platform)"
  proof -
    have "links_live h1 (selected_links h1 os platform)"
      unfolding h1 by (rule add_device_selected_live [OF live])
    from add_device_targets_append [OF ok2 this] add_device_targets_append [OF ok1 live]
    show ?thesis by (simp add: h2 h1)
  qed
  show ?thesis
  proof (intro conjI allI impI)
    fix links
    assume "platforms (os_priv h os) (osinfo_entity_get_id h platform) = Some links"
    then show "platforms (os_priv h1 os) (osinfo_entity_get_id h platform) =
        Some (links @ [link1])"
      by (simp add: priv add_platform_link_apply g_hash_table_lookup_def)
  next
    fix key
    assume "key \<noteq> osinfo_entity_get_id h platform"
    then show "platforms (os_priv h1 os) key = platforms (os_priv h os) key"
      by (simp add: priv add_platform_link_apply)
  next
    show "deviceLinks (os_priv h1 os) = deviceLinks (os_priv h os)"
      by (simp add: priv)
  next
    show "selected_links h2 os platform = selected_links h os platform @ [link1, link2]"
      by (simp add: sel2 sel1)
  next
    assume empty: "selected_links h os platform = []"
    then have "links_live h (selected_links h os platform)"
      by (simp add: links_live_def)
    from targets [OF this] empty
    show "osinfo_os_get_devices fm h2 os platform NULL = Some [d1, d2]"
      by (simp add: get_devices_no_filter [OF ok(1)])
  next
    fix before
    assume "reachable os h" and "osinfo_os_get_devices fm h os platform NULL = Some before"
    with targets [OF reachable_selected_live]
    show "osinfo_os_get_devices fm h2 os platform NULL = Some (before @ [d1, d2])"
      by (simp add: get_devices_no_filter [OF ok(1)] get_devices_no_filter [OF ok(2)])
  qed
qed

text \<open>
  In the example \<open>kvm\<close> has the links 9 and 10, of \<open>rtl8139\<close> and \<open>e1000\<close>;
  adding \<open>e1000\<close> and then \<open>rtl8139\<close> under \<open>kvm\<close> appends the links 11 and
  12. On the fresh heap the same two calls give the devices \<open>[4, 5]\<close>.
\<close>

theorem C2_add_device_appends_witness:
  "OSINFO_IS_OS example_heap 1 \<and> OSINFO_IS_PLATFORM example_heap 2 \<and>
   OSINFO_IS_DEVICE example_heap 4 \<and> OSINFO_IS_DEVICE example_heap 5 \<and>
   reachable 1 example_heap \<and>
   platforms (os_priv example_heap 1) ''kvm'' = Some [9, 10] \<and>
   platforms (os_priv (fst (osinfo_os_add_device example_heap 1 2 4)) 1) ''kvm'' =
     Some [9, 10, 11] \<and>
   osinfo_os_get_devices (\<lambda>f e. False) example_heap 1 2 NULL = Some [5, 4] \<and>
   osinfo_os_get_devices (\<lambda>f e. False)
     (fst (osinfo_os_add_device (fst (osinfo_os_add_device example_heap 1 2 4)) 1 2 5))
     1 2 NULL = Some [5, 4, 4, 5] \<and>
   selected_links fresh_heap 1 2 = [] \<and>
   osinfo_os_get_devices (\<lambda>f e. False)
     (fst (osinfo_os_add_device (fst (osinfo_os_add_device fresh_heap 1 2 4)) 1 2 5))
     1 2 NULL = Some [4, 5]"
proof -
  have ex: "OSINFO_IS_OS example_heap 1" "OSINFO_IS_PLATFORM example_heap 2"
    "OSINFO_IS_DEVICE example_heap 4" "OSINFO_IS_DEVICE example_heap 5"
    and reach: "reachable 1 example_heap"
    and kvm: "platforms (os_priv example_heap 1) (osinfo_entity_get_id example_heap 2) =
      Some [9, 10]"
    and before: "osinfo_os_get_devices (\<lambda>f e. False) example_heap 1 2 NULL = Some [5, 4]"
    by (simp_all add: example_devices example_reachable example_kvm_links example_kvm_id
        osinfo_os_get_devices_def get_devices_loop_eq osinfo_list_new_def)
  note on_example = C2_add_device_appends [OF ex example_add_kvm(1,2), of "\<lambda>f e. False"]
  note on_fresh = C2_add_device_appends [OF fresh_kinds(1-4) example_add_kvm(3,4),
      of "\<lambda>f e. False"]
  from on_example kvm
  have "platforms (os_priv (fst (osinfo_os_add_device example_heap 1 2 4)) 1)
      (osinfo_entity_get_id example_heap 2) = Some ([9, 10] @ [11])"
    by blast
  moreover from on_example reach before
  have "osinfo_os_get_devices (\<lambda>f e. False)
     (fst (osinfo_os_add_device (fst (osinfo_os_add_device example_heap 1 2 4)) 1 2 5))
     1 2 NULL = Some ([5, 4] @ [4, 5])"
    by blast
  moreover from on_fresh fresh_kinds(5)
  have "osinfo_os_get_devices (\<lambda>f e. False)
     (fst (osinfo_os_add_device (fst (osinfo_os_add_device fresh_heap 1 2 4)) 1 2 5))
     1 2 NULL = Some [4, 5]"
    by blast
  ultimately show ?thesis
    using ex reach kvm before fresh_kinds(5) by (simp add: example_kvm_id)
qed

text \<open>
  C4: on a freshly initialised operating system, calls of \<^verbatim>\<open>osinfo_os_add_device\<close>
  without a platform, one for each device of the list \<open>devs\<close> in order, leave
  \<^verbatim>\<open>osinfo_os_get_devices\<close> without platform and filter returning exactly \<open>devs\<close>:
  one element for each call, in the order of the calls, a device linked twice listed
  twice. The list of calls may be of any length, the empty one included.
\<close>

theorem C4_default_devices_in_call_order:
  assumes "deref h os = Some (OsinfoOs ident osinfo_os_init)"
    and "\<forall>dev\<in>set devs. OSINFO_IS_DEVICE h dev"
  shows "osinfo_os_get_devices fm (fst (add_devices h os (map (Pair NULL) devs))) os NULL NULL =
           Some devs"
proof -
  from assms(1) have os: "OSINFO_IS_OS h os"
    by (simp add: OSINFO_IS_OS_def)
  have empty: "selected_links h os NULL = []"
    by (rule selected_links_init [OF assms(1)])
  from add_devices_default_targets [OF os assms(2)] empty
  have "map (osinfo_devicelink_get_target (fst (add_devices h os (map (Pair NULL) devs))))
           (selected_links (fst (add_devices h os (map (Pair NULL) devs))) os NULL) = devs"
    by (simp add: links_live_def)
  with os show ?thesis
    by (simp add: osinfo_os_get_devices_def get_devices_loop_eq osinfo_list_new_def)
qed

text \<open>On the fresh heap: \<open>rtl8139\<close>, \<open>e1000\<close> and \<open>rtl8139\<close> again.\<close>

theorem C4_default_devices_in_call_order_witness:
  "deref fresh_heap 1 = Some (OsinfoOs ''fedora'' osinfo_os_init) \<and>
   OSINFO_IS_DEVICE fresh_heap 4 \<and> OSINFO_IS_DEVICE fresh_heap 5 \<and>
   osinfo_os_get_devices (\<lambda>f e. False)
     (fst (add_devices fresh_heap 1 [(NULL, 5), (NULL, 4), (NULL, 5)])) 1 NULL NULL =
     Some [5, 4, 5]"
proof -
  have devs: "OSINFO_IS_DEVICE fresh_heap 4" "OSINFO_IS_DEVICE fresh_heap 5"
    by (simp_all add: fresh_heap_def OSINFO_IS_DEVICE_def deref_def)
  then have "\<forall>dev\<in>set [5, 4, 5]. OSINFO_IS_DEVICE fresh_heap dev"
    by simp
  from C4_default_devices_in_call_order [OF fresh_init this, of "\<lambda>f e. False"] fresh_init devs
  show ?thesis by simp
qed

text \<open>
  C8: an index built from a freshly initialised operating system by a sequence of
  \<^verbatim>\<open>osinfo_os_add_device\<close> calls. Whatever \<^verbatim>\<open>osinfo_os_get_device_links\<close> returns for
  a platform is, in order, the pointers that the calls for that scope returned (the
  calls that failed returned \<^verbatim>\<open>NULL\<close> and left no entry), thinned by the filter: each
  link of the result is the address a call returned, and the non-\<^verbatim>\<open>NULL\<close> addresses
  returned are pairwise different.
\<close>

theorem C8_links_are_the_returned_links:
  assumes "deref h os = Some (OsinfoOs ident osinfo_os_init)"
    and "add_devices h os calls = (h', returned)"
    and "osinfo_os_get_device_links fm h' os platform filter' = Some result"
  shows "result =
           filter (\<lambda>link. filter' = NULL \<or> fm filter' link)
             (map snd (filter (\<lambda>(call, link). link \<noteq> NULL \<and> same_scope h (fst call) platform)
                         (zip calls returned))) \<and>
         set result \<subseteq> set returned \<and>
         distinct (filter (\<lambda>link. link \<noteq> NULL) returned)"
proof -
  from assms(3) have "result =
      filter (\<lambda>link. filter' = NULL \<or> fm filter' link) (selected_links h' os platform)"
    by (simp add: osinfo_os_get_device_links_def get_device_links_loop_eq osinfo_list_new_def
        split: if_splits)
  also have "selected_links h' os platform =
      map snd (filter (\<lambda>(call, link). link \<noteq> NULL \<and> same_scope h (fst call) platform)
                 (zip calls returned))"
    by (simp add: add_devices_selected_links [OF assms(2)] selected_links_init [OF assms(1)])
  finally have result: "result =
      filter (\<lambda>link. filter' = NULL \<or> fm filter' link)
        (map snd (filter (\<lambda>(call, link). link \<noteq> NULL \<and> same_scope h (fst call) platform)
                    (zip calls returned)))" .
  have "set result \<subseteq> set returned"
    unfolding result by (auto dest: set_zip_rightD)
  with result add_devices_returned [OF assms(2)] show ?thesis
    by simp
qed

text \<open>
  In the example the five calls returned 7, 8, 9, 10 and \<^verbatim>\<open>NULL\<close>; the links of
  \<open>kvm\<close> are 9 and 10, returned by the third and fourth call.
\<close>

theorem C8_links_are_the_returned_links_witness:
  "deref fresh_heap 1 = Some (OsinfoOs ''fedora'' osinfo_os_init) \<and>
   add_devices fresh_heap 1 example_calls = (example_heap, [7, 8, 9, 10, NULL]) \<and>
   osinfo_os_get_device_links (\<lambda>f e. True) example_heap 1 2 NULL = Some [9, 10] \<and>
   [9, 10] =
     filter (\<lambda>link. NULL = NULL \<or> True)
       (map snd (filter (\<lambda>(call, link). link \<noteq> NULL \<and> same_scope fresh_heap (fst call) 2)
                   (zip example_calls [7, 8, 9, 10, NULL])))"
proof -
  have links: "osinfo_os_get_device_links (\<lambda>f e. True) example_heap 1 2 NULL = Some [9, 10]"
    by (simp add: osinfo_os_get_device_links_def get_device_links_loop_eq osinfo_list_new_def)
  from C8_links_are_the_returned_links [OF fresh_init example_returned links]
  have "[9, 10] =
     filter (\<lambda>link. NULL = NULL \<or> True)
       (map snd (filter (\<lambda>(call, link). link \<noteq> NULL \<and> same_scope fresh_heap (fst call) 2)
                   (zip example_calls [7, 8, 9, 10, NULL])))"
    by (rule conjunct1)
  with fresh_init example_returned links show ?thesis
    by blast
qed

end
